theory Spec2Isabelle
  imports Main "HOL-Library.Product_Lexorder"
begin

section \<open>The record store\<close>

text \<open>
  The four tables of \<^verbatim>\<open>api/database.py\<close> as lists of rows, in storage order: a query
  \<^verbatim>\<open>.all()\<close> enumerates a table in this order and \<^verbatim>\<open>.first()\<close> returns its first
  matching row. Amounts and prices are exact numbers (\<^typ>\<open>int\<close>).
\<close>

record datetime =
  year :: int
  month :: int
  day :: int
  hour :: int
  minute :: int
  second :: int
  microsecond :: int

text \<open>
  The columns \<^verbatim>\<open>camps\<close> and \<^verbatim>\<open>prices\<close> hold JSON text. The text is represented by the list
  it encodes: \<open>Some xs\<close> is the text \<^verbatim>\<open>json.dumps(xs)\<close>, on which \<^verbatim>\<open>json.loads\<close> returns
  \<open>xs\<close> again, and \<open>None\<close> is a column that is NULL or the empty text, which the handlers
  test with \<^verbatim>\<open>if customer.prices\<close> before decoding.
\<close>

type_synonym 'a json_column = "'a list option"

definition json_dumps :: "'a list \<Rightarrow> 'a json_column" where
  "json_dumps xs = Some xs"

text \<open>\<^verbatim>\<open>json.loads(col) if col else []\<close>\<close>

definition loads_or_empty :: "'a json_column \<Rightarrow> 'a list" where
  "loads_or_empty col = (case col of None \<Rightarrow> [] | Some xs \<Rightarrow> xs)"

record user =
  u_id :: int
  email :: string
  hashed_password :: string
  is_active :: bool
  can_manage_customers :: bool
  can_view_financials :: bool
  can_manage_partnership_codes :: bool
  can_view_partnership_stats :: bool
  can_manage_access :: bool

record customer =
  c_id :: int
  full_name :: string
  phone :: string
  c_email :: string
  class_level :: string
  camps :: "string json_column"
  prices :: "int json_column"
  partnership_code :: "string option"
  previous_yks_rank :: "int option"
  city :: string
  is_paid :: bool
  is_deleted :: bool
  deleted_at :: "datetime option"
  created_at :: datetime

record partnership_code_row =
  pc_id :: int
  code :: string
  pc_is_active :: bool
  pc_created_at :: datetime

record financial_transaction =
  t_id :: int
  customer_id :: int
  amount :: int
  transaction_date :: datetime
  t_is_deleted :: bool

record db =
  users :: "user list"
  customers :: "customer list"
  partnership_codes :: "partnership_code_row list"
  transactions :: "financial_transaction list"

text \<open>\<^verbatim>\<open>query.filter(P).first()\<close>: the first row that satisfies the filter, if any.\<close>

fun first :: "('a \<Rightarrow> bool) \<Rightarrow> 'a list \<Rightarrow> 'a option" where
  "first P [] = None"
| "first P (x # xs) = (if P x then Some x else first P xs)"

text \<open>
  Assigning to the attributes of the row that \<^verbatim>\<open>.first()\<close> returned and committing
  rewrites that row in place.
\<close>

fun update_first :: "('a \<Rightarrow> bool) \<Rightarrow> ('a \<Rightarrow> 'a) \<Rightarrow> 'a list \<Rightarrow> 'a list" where
  "update_first P f [] = []"
| "update_first P f (x # xs) = (if P x then f x # xs else x # update_first P f xs)"

text \<open>
  Modelled from the spec: \<^verbatim>\<open>api/database.py\<close> is not among the sources. The record store
  gives an inserted row an identifier that no row of the table has: one more than the
  largest identifier in use.
\<close>

definition next_id :: "int list \<Rightarrow> int" where
  "next_id ids = fold max ids 0 + 1"

section \<open>Errors and the authorization guard\<close>

text \<open>
  The client-visible failures: \<open>Unauthenticated\<close> is status 401, \<open>Forbidden\<close> 403,
  \<open>NotFound\<close> 404; \<open>InvalidReference\<close> and \<open>Conflict\<close> are both status 400, raised for
  an unknown or inactive partnership code and for a duplicate unique field; \<open>Internal\<close>
  is status 500, the outcome of an exception that no handler catches.
\<close>

datatype error = Unauthenticated | Forbidden | NotFound | InvalidReference | Conflict | Internal

text \<open>
  Modelled from the spec: \<^verbatim>\<open>api/auth.py\<close> is not among the sources. The guard
  \<^verbatim>\<open>Depends(require_permission(flag))\<close> resolves the session token to a user (\<open>None\<close>
  when the token is missing, invalid or expired) and checks the one named flag.
\<close>

definition require_permission :: "(user \<Rightarrow> bool) \<Rightarrow> user option \<Rightarrow> error + user" where
  "require_permission flag token =
     (case token of
        None \<Rightarrow> Inl Unauthenticated
      | Some current_user \<Rightarrow> if flag current_user then Inr current_user else Inl Forbidden)"

section \<open>Customer endpoints\<close>

record customer_create =
  req_full_name :: string
  req_phone :: string
  req_email :: string
  req_class_level :: string
  req_camps :: "string list"
  req_prices :: "int list"
  req_partnership_code :: "string option"
  req_previous_yks_rank :: "int option"
  req_city :: string

record customer_response =
  resp_id :: int
  resp_full_name :: string
  resp_phone :: string
  resp_email :: string
  resp_class_level :: string
  resp_camps :: "string list"
  resp_prices :: "int list"
  resp_partnership_code :: "string option"
  resp_previous_yks_rank :: "int option"
  resp_city :: string
  resp_is_paid :: bool
  resp_is_deleted :: bool
  resp_created_at :: datetime

text \<open>
  \<^verbatim>\<open>CustomerResponse.model_validate(row)\<close> followed by the two assignments that decode
  \<^verbatim>\<open>camps\<close> and \<^verbatim>\<open>prices\<close>.
\<close>

definition customer_response_of :: "customer \<Rightarrow> customer_response" where
  "customer_response_of c =
     \<lparr>resp_id = c_id c, resp_full_name = full_name c, resp_phone = phone c,
      resp_email = c_email c, resp_class_level = class_level c,
      resp_camps = loads_or_empty (camps c), resp_prices = loads_or_empty (prices c),
      resp_partnership_code = partnership_code c,
      resp_previous_yks_rank = previous_yks_rank c, resp_city = city c,
      resp_is_paid = is_paid c, resp_is_deleted = is_deleted c,
      resp_created_at = created_at c\<rparr>"

text \<open>
  The validation at the head of \<^verbatim>\<open>create_customer\<close>: \<^verbatim>\<open>if customer.partnership_code:\<close>
  is false for an absent code and for the empty string; otherwise the code must be the
  code of an active row.
\<close>

definition partnership_code_rejected :: "db \<Rightarrow> string option \<Rightarrow> bool" where
  "partnership_code_rejected d pcode =
     (case pcode of
        None \<Rightarrow> False
      | Some s \<Rightarrow>
          if s = [] then False
          else first (\<lambda>pc. code pc = s \<and> pc_is_active pc) (partnership_codes d) = None)"

definition new_customer :: "db \<Rightarrow> customer_create \<Rightarrow> datetime \<Rightarrow> customer" where
  "new_customer d customer now =
     (let total_price = sum_list (req_prices customer) in
      \<lparr>c_id = next_id (map c_id (customers d)),
       full_name = req_full_name customer,
       phone = req_phone customer,
       c_email = req_email customer,
       class_level = req_class_level customer,
       camps = json_dumps (req_camps customer),
       prices = json_dumps (req_prices customer),
       partnership_code = req_partnership_code customer,
       previous_yks_rank = req_previous_yks_rank customer,
       city = req_city customer,
       is_paid = (if total_price > 0 then True else False),
       is_deleted = False,
       deleted_at = None,
       created_at = now\<rparr>)"

definition new_transaction :: "db \<Rightarrow> int \<Rightarrow> int \<Rightarrow> datetime \<Rightarrow> financial_transaction" where
  "new_transaction d cid total_price now =
     \<lparr>t_id = next_id (map t_id (transactions d)),
      customer_id = cid,
      amount = total_price,
      transaction_date = now,
      t_is_deleted = False\<rparr>"

text \<open>
  \<^verbatim>\<open>POST /api/customers\<close>. The result is the store after the request and the outcome;
  a raised \<^verbatim>\<open>HTTPException\<close> leaves the store as it was. \<open>now\<close> is the clock value
  that the column defaults \<^verbatim>\<open>created_at\<close> and \<^verbatim>\<open>transaction_date\<close> read.
\<close>

definition create_customer ::
  "db \<Rightarrow> user option \<Rightarrow> customer_create \<Rightarrow> datetime \<Rightarrow> db \<times> (error + customer_response)" where
  "create_customer d token customer now =
     (case require_permission can_manage_customers token of
        Inl e \<Rightarrow> (d, Inl e)
      | Inr current_user \<Rightarrow>
          if partnership_code_rejected d (req_partnership_code customer)
          then (d, Inl InvalidReference)
          else
            let total_price = sum_list (req_prices customer);
                db_customer = new_customer d customer now;
                d1 = d\<lparr>customers := customers d @ [db_customer]\<rparr>;
                d2 = (if total_price > 0
                      then d1\<lparr>transactions := transactions d1 @
                             [new_transaction d1 (c_id db_customer) total_price now]\<rparr>
                      else d1)
            in (d2, Inr (customer_response_of db_customer)))"

text \<open>
  \<^verbatim>\<open>DELETE /api/customers/{customer_id}\<close>. \<open>now\<close> is the value of
  \<^verbatim>\<open>datetime.utcnow()\<close> stored in \<^verbatim>\<open>deleted_at\<close>.
\<close>

definition mark_deleted :: "datetime \<Rightarrow> customer \<Rightarrow> customer" where
  "mark_deleted now c = c\<lparr>is_deleted := True, deleted_at := Some now\<rparr>"

definition cascade :: "int \<Rightarrow> financial_transaction \<Rightarrow> financial_transaction" where
  "cascade cid t =
     (if customer_id t = cid \<and> t_is_deleted t = False then t\<lparr>t_is_deleted := True\<rparr> else t)"

definition delete_customer ::
  "db \<Rightarrow> user option \<Rightarrow> int \<Rightarrow> datetime \<Rightarrow> db \<times> (error + string)" where
  "delete_customer d token cid now =
     (case require_permission can_manage_customers token of
        Inl e \<Rightarrow> (d, Inl e)
      | Inr current_user \<Rightarrow>
          (case first (\<lambda>c. c_id c = cid) (customers d) of
             None \<Rightarrow> (d, Inl NotFound)
           | Some customer \<Rightarrow>
               (d\<lparr>customers := update_first (\<lambda>c. c_id c = cid) (mark_deleted now) (customers d),
                  transactions := map (cascade cid) (transactions d)\<rparr>,
                Inr ''Customer marked as deleted (payment not received)'')))"

section \<open>Dates\<close>

text \<open>
  The part of Python's \<^verbatim>\<open>datetime\<close> that \<^verbatim>\<open>get_financials\<close> uses. Two naive datetimes
  compare as the tuples of their fields.
\<close>

definition dt_key :: "datetime \<Rightarrow> int \<times> int \<times> int \<times> int \<times> int \<times> int \<times> int" where
  "dt_key t = (year t, month t, day t, hour t, minute t, second t, microsecond t)"

definition dt_ge :: "datetime \<Rightarrow> datetime \<Rightarrow> bool" where
  "dt_ge a b = (dt_key b \<le> dt_key a)"

definition is_leap :: "int \<Rightarrow> bool" where
  "is_leap y = (y mod 4 = 0 \<and> (y mod 100 \<noteq> 0 \<or> y mod 400 = 0))"

definition days_in_month :: "int \<Rightarrow> int \<Rightarrow> int" where
  "days_in_month y m =
     (if m = 2 \<and> is_leap y then 29
      else [- 1, 31, 28, 31, 30, 31, 30, 31, 31, 30, 31, 30, 31] ! nat m)"

definition days_before_year :: "int \<Rightarrow> int" where
  "days_before_year y = (y - 1) * 365 + (y - 1) div 4 - (y - 1) div 100 + (y - 1) div 400"

definition days_before_month :: "int \<Rightarrow> int \<Rightarrow> int" where
  "days_before_month y m =
     [- 1, 0, 31, 59, 90, 120, 151, 181, 212, 243, 273, 304, 334] ! nat m
       + (if m > 2 \<and> is_leap y then 1 else 0)"

definition toordinal :: "datetime \<Rightarrow> int" where
  "toordinal t = days_before_year (year t) + days_before_month (year t) (month t) + day t"

text \<open>\<^verbatim>\<open>weekday()\<close>: Monday is 0 and Sunday is 6.\<close>

definition weekday :: "datetime \<Rightarrow> int" where
  "weekday t = (toordinal t + 6) mod 7"

text \<open>
  The values a \<^verbatim>\<open>datetime\<close> can hold: years 1 to 9999, a day that the month has, and a
  time of day.
\<close>

definition valid_datetime :: "datetime \<Rightarrow> bool" where
  "valid_datetime t =
     (1 \<le> year t \<and> year t \<le> 9999 \<and> 1 \<le> month t \<and> month t \<le> 12
      \<and> 1 \<le> day t \<and> day t \<le> days_in_month (year t) (month t)
      \<and> 0 \<le> hour t \<and> hour t < 24 \<and> 0 \<le> minute t \<and> minute t < 60
      \<and> 0 \<le> second t \<and> second t < 60 \<and> 0 \<le> microsecond t \<and> microsecond t < 1000000)"

text \<open>
  \<^verbatim>\<open>t - timedelta(days=1)\<close>: the same time of day on the day before, and
  \<^verbatim>\<open>OverflowError\<close> (here \<open>None\<close>) before the first day of year 1.
\<close>

definition prev_day :: "datetime \<Rightarrow> datetime option" where
  "prev_day t =
     (if day t > 1 then Some (t\<lparr>day := day t - 1\<rparr>)
      else if month t > 1
      then Some (t\<lparr>month := month t - 1, day := days_in_month (year t) (month t - 1)\<rparr>)
      else if year t > 1 then Some (t\<lparr>year := year t - 1, month := 12, day := 31\<rparr>)
      else None)"

fun prev_days :: "nat \<Rightarrow> datetime \<Rightarrow> datetime option" where
  "prev_days 0 t = Some t"
| "prev_days (Suc k) t = (case prev_day t of None \<Rightarrow> None | Some t' \<Rightarrow> prev_days k t')"

text \<open>\<^verbatim>\<open>t - timedelta(days=n)\<close> for \<open>n \<ge> 0\<close>.\<close>

definition sub_days :: "datetime \<Rightarrow> int \<Rightarrow> datetime option" where
  "sub_days t n = prev_days (nat n) t"

section \<open>Financial aggregation\<close>

record financial_period =
  daily :: int
  weekly :: int
  monthly :: int
  yearly :: int

record financial_detail =
  fd_customer_id :: int
  customer_name :: string
  fd_amount :: int
  fd_transaction_date :: datetime

record financial_response =
  period :: financial_period
  details :: "financial_detail list"
  total :: int

text \<open>\<^verbatim>\<open>sum(t.amount for t in all_transactions if t.transaction_date >= start)\<close>\<close>

definition window_total :: "financial_transaction list \<Rightarrow> datetime \<Rightarrow> int" where
  "window_total all_transactions start =
     sum_list (map amount (filter (\<lambda>t. dt_ge (transaction_date t) start) all_transactions))"

text \<open>The loop that builds \<^verbatim>\<open>details\<close>, one transaction per step.\<close>

fun collect_details ::
  "db \<Rightarrow> financial_transaction list \<Rightarrow> financial_detail list \<Rightarrow> financial_detail list" where
  "collect_details d [] ds = ds"
| "collect_details d (t # ts) ds =
     (case first (\<lambda>c. c_id c = customer_id t) (customers d) of
        None \<Rightarrow> collect_details d ts ds
      | Some customer \<Rightarrow>
          if \<not> is_deleted customer
          then collect_details d ts
                 (ds @ [\<lparr>fd_customer_id = c_id customer,
                         customer_name = full_name customer,
                         fd_amount = amount t,
                         fd_transaction_date = transaction_date t\<rparr>])
          else collect_details d ts ds)"

text \<open>\<^verbatim>\<open>GET /api/financials\<close>. \<open>now\<close> is the value of \<^verbatim>\<open>datetime.utcnow()\<close>.\<close>

definition get_financials ::
  "db \<Rightarrow> user option \<Rightarrow> datetime \<Rightarrow> db \<times> (error + financial_response)" where
  "get_financials d token now =
     (case require_permission can_view_financials token of
        Inl e \<Rightarrow> (d, Inl e)
      | Inr current_user \<Rightarrow>
          let today_start = now\<lparr>hour := 0, minute := 0, second := 0, microsecond := 0\<rparr> in
          (case sub_days today_start (weekday now) of
             None \<Rightarrow> (d, Inl Internal)
           | Some week_start \<Rightarrow>
               let month_start =
                     now\<lparr>day := 1, hour := 0, minute := 0, second := 0, microsecond := 0\<rparr>;
                   year_start =
                     now\<lparr>month := 1, day := 1, hour := 0, minute := 0, second := 0,
                         microsecond := 0\<rparr>;
                   all_transactions = filter (\<lambda>t. t_is_deleted t = False) (transactions d);
                   daily_total = window_total all_transactions today_start;
                   weekly_total = window_total all_transactions week_start;
                   monthly_total = window_total all_transactions month_start;
                   yearly_total = window_total all_transactions year_start;
                   total_all = sum_list (map amount all_transactions);
                   ds = collect_details d all_transactions []
               in (d, Inr \<lparr>period = \<lparr>daily = daily_total, weekly = weekly_total,
                                     monthly = monthly_total, yearly = yearly_total\<rparr>,
                           details = ds,
                           total = total_all\<rparr>)))"

section \<open>Partnership statistics\<close>

record partnership_stats =
  ps_code :: string
  customer_count :: nat
  total_amount :: int

text \<open>The inner loop of \<^verbatim>\<open>get_partnership_stats\<close>, which adds up the decoded prices.\<close>

fun add_prices :: "customer list \<Rightarrow> int \<Rightarrow> int" where
  "add_prices [] acc = acc"
| "add_prices (customer # cs) acc =
     add_prices cs (acc + sum_list (loads_or_empty (prices customer)))"

text \<open>One step of the outer loop: the statistics of one code.\<close>

definition code_stats :: "db \<Rightarrow> partnership_code_row \<Rightarrow> partnership_stats" where
  "code_stats d pc =
     (let cs = filter (\<lambda>c. partnership_code c = Some (code pc) \<and> is_deleted c = False)
                 (customers d)
      in \<lparr>ps_code = code pc, customer_count = length cs, total_amount = add_prices cs 0\<rparr>)"

text \<open>
  \<^verbatim>\<open>sorted(xs, key=key, reverse=True)\<close>: the list is reversed, sorted by a stable sort and
  reversed again.
\<close>

definition sorted_reverse :: "('a \<Rightarrow> int) \<Rightarrow> 'a list \<Rightarrow> 'a list" where
  "sorted_reverse key xs = rev (sort_key key (rev xs))"

text \<open>\<^verbatim>\<open>GET /api/partnership-stats\<close>\<close>

definition get_partnership_stats ::
  "db \<Rightarrow> user option \<Rightarrow> db \<times> (error + partnership_stats list)" where
  "get_partnership_stats d token =
     (case require_permission can_view_partnership_stats token of
        Inl e \<Rightarrow> (d, Inl e)
      | Inr current_user \<Rightarrow>
          (d, Inr (sorted_reverse total_amount (map (code_stats d) (partnership_codes d)))))"

section \<open>User management\<close>

record user_update =
  upd_can_manage_customers :: "bool option"
  upd_can_view_financials :: "bool option"
  upd_can_manage_partnership_codes :: "bool option"
  upd_can_view_partnership_stats :: "bool option"
  upd_can_manage_access :: "bool option"
  upd_is_active :: "bool option"

record user_response =
  ur_id :: int
  ur_email :: string
  ur_is_active :: bool
  ur_can_manage_customers :: bool
  ur_can_view_financials :: bool
  ur_can_manage_partnership_codes :: bool
  ur_can_view_partnership_stats :: bool
  ur_can_manage_access :: bool

definition user_response_of :: "user \<Rightarrow> user_response" where
  "user_response_of u =
     \<lparr>ur_id = u_id u, ur_email = email u, ur_is_active = is_active u,
      ur_can_manage_customers = can_manage_customers u,
      ur_can_view_financials = can_view_financials u,
      ur_can_manage_partnership_codes = can_manage_partnership_codes u,
      ur_can_view_partnership_stats = can_view_partnership_stats u,
      ur_can_manage_access = can_manage_access u\<rparr>"

definition protected_emails :: "string list" where
  "protected_emails = [''gokhan@kampus.com'', ''emre@kampus.com'']"

text \<open>The six guarded assignments of \<^verbatim>\<open>update_user\<close>, in the order of the source.\<close>

definition update_fields :: "user_update \<Rightarrow> user \<Rightarrow> user" where
  "update_fields user_data u0 =
     (let u1 = (case upd_can_manage_customers user_data of
                  None \<Rightarrow> u0 | Some b \<Rightarrow> u0\<lparr>can_manage_customers := b\<rparr>);
          u2 = (case upd_can_view_financials user_data of
                  None \<Rightarrow> u1 | Some b \<Rightarrow> u1\<lparr>can_view_financials := b\<rparr>);
          u3 = (case upd_can_manage_partnership_codes user_data of
                  None \<Rightarrow> u2 | Some b \<Rightarrow> u2\<lparr>can_manage_partnership_codes := b\<rparr>);
          u4 = (case upd_can_view_partnership_stats user_data of
                  None \<Rightarrow> u3 | Some b \<Rightarrow> u3\<lparr>can_view_partnership_stats := b\<rparr>);
          u5 = (case upd_can_manage_access user_data of
                  None \<Rightarrow> u4 | Some b \<Rightarrow> u4\<lparr>can_manage_access := b\<rparr>);
          u6 = (case upd_is_active user_data of
                  None \<Rightarrow> u5 | Some b \<Rightarrow> u5\<lparr>is_active := b\<rparr>)
      in u6)"

text \<open>\<^verbatim>\<open>PUT /api/users/{user_id}\<close>\<close>

definition update_user ::
  "db \<Rightarrow> user option \<Rightarrow> int \<Rightarrow> user_update \<Rightarrow> db \<times> (error + user_response)" where
  "update_user d token uid user_data =
     (case require_permission can_manage_access token of
        Inl e \<Rightarrow> (d, Inl e)
      | Inr current_user \<Rightarrow>
          (case first (\<lambda>u. u_id u = uid) (users d) of
             None \<Rightarrow> (d, Inl NotFound)
           | Some u \<Rightarrow>
               if email u \<in> set protected_emails then (d, Inl Forbidden)
               else (d\<lparr>users := update_first (\<lambda>u. u_id u = uid) (update_fields user_data)
                                   (users d)\<rparr>,
                     Inr (user_response_of (update_fields user_data u)))))"

text \<open>\<^verbatim>\<open>DELETE /api/users/{user_id}\<close>\<close>

definition delete_user :: "db \<Rightarrow> user option \<Rightarrow> int \<Rightarrow> db \<times> (error + string)" where
  "delete_user d token uid =
     (case require_permission can_manage_access token of
        Inl e \<Rightarrow> (d, Inl e)
      | Inr current_user \<Rightarrow>
          (case first (\<lambda>u. u_id u = uid) (users d) of
             None \<Rightarrow> (d, Inl NotFound)
           | Some u \<Rightarrow>
               if email u \<in> set protected_emails then (d, Inl Forbidden)
               else (d\<lparr>users := update_first (\<lambda>u. u_id u = uid) (\<lambda>u. u\<lparr>is_active := False\<rparr>)
                                   (users d)\<rparr>,
                     Inr ''User deactivated'')))"

section \<open>The cascade invariant and example stores\<close>

text \<open>
  No transaction that is still counted belongs to a soft-deleted customer. The store
  starts with it and both customer endpoints keep it.
\<close>

definition cascade_inv :: "db \<Rightarrow> bool" where
  "cascade_inv d =
     (\<forall>t\<in>set (transactions d). \<not> t_is_deleted t \<longrightarrow>
        (\<forall>c\<in>set (customers d). c_id c = customer_id t \<longrightarrow> \<not> is_deleted c))"

text \<open>
  The aggregation ordering as the specification words it: each window contains the next
  shorter one.
\<close>

definition windows_nested :: "financial_response \<Rightarrow> bool" where
  "windows_nested r =
     (yearly (period r) \<ge> monthly (period r) \<and> monthly (period r) \<ge> weekly (period r)
      \<and> weekly (period r) \<ge> daily (period r) \<and> daily (period r) \<ge> 0
      \<and> total r \<ge> yearly (period r))"

text \<open>Concrete users, requests and stores on which the theorems below are exercised.\<close>

definition admin :: user where
  "admin = \<lparr>u_id = 1, email = ''admin@kampus.com'', hashed_password = ''x'', is_active = True,
     can_manage_customers = True, can_view_financials = True,
     can_manage_partnership_codes = True, can_view_partnership_stats = True,
     can_manage_access = True\<rparr>"

definition at_time :: "int \<Rightarrow> int \<Rightarrow> int \<Rightarrow> int \<Rightarrow> datetime" where
  "at_time y m d h =
     \<lparr>year = y, month = m, day = d, hour = h, minute = 0, second = 0, microsecond = 0\<rparr>"

definition empty_db :: db where
  "empty_db = \<lparr>users = [admin], customers = [], partnership_codes = [], transactions = []\<rparr>"

definition enrollment :: "int list \<Rightarrow> string option \<Rightarrow> customer_create" where
  "enrollment ps pcode =
     \<lparr>req_full_name = ''Ada'', req_phone = ''555'', req_email = ''ada@example.com'',
      req_class_level = ''12'', req_camps = map (\<lambda>_. ''Math'') ps, req_prices = ps,
      req_partnership_code = pcode, req_previous_yks_rank = None, req_city = ''Izmir''\<rparr>"

text \<open>A store with one customer who paid 100 at the time \<open>t\<close>.\<close>

definition paid_on :: "datetime \<Rightarrow> db" where
  "paid_on t =
     \<lparr>users = [admin],
      customers = [\<lparr>c_id = 1, full_name = ''Ada'', phone = ''555'', c_email = ''ada@example.com'',
         class_level = ''12'', camps = Some [''Math''], prices = Some [100],
         partnership_code = None, previous_yks_rank = None, city = ''Izmir'', is_paid = True,
         is_deleted = False, deleted_at = None, created_at = t\<rparr>],
      partnership_codes = [],
      transactions = [\<lparr>t_id = 1, customer_id = 1, amount = 100, transaction_date = t,
         t_is_deleted = False\<rparr>]\<rparr>"

text \<open>
  What \<^verbatim>\<open>GET /api/financials\<close> answers on Tuesday 1 December 2026 when the one payment
  was made on Monday 30 November.
\<close>

definition month_edge_response :: financial_response where
  "month_edge_response =
     \<lparr>period = \<lparr>daily = 0, weekly = 100, monthly = 0, yearly = 100\<rparr>,
      details = [\<lparr>fd_customer_id = 1, customer_name = ''Ada'', fd_amount = 100,
                  fd_transaction_date = at_time 2026 11 30 12\<rparr>],
      total = 100\<rparr>"

text \<open>
  A store for the partnership statistics: two live customers and a soft-deleted one under
  \<^verbatim>\<open>PARTNER10\<close>, two codes whose totals tie at 42, and an unused inactive code.
\<close>

definition customer_row :: "int \<Rightarrow> int list \<Rightarrow> string option \<Rightarrow> bool \<Rightarrow> customer" where
  "customer_row i ps pcode del =
     \<lparr>c_id = i, full_name = ''Ada'', phone = ''555'', c_email = ''ada@example.com'',
      class_level = ''12'', camps = Some (map (\<lambda>_. ''Math'') ps), prices = Some ps,
      partnership_code = pcode, previous_yks_rank = None, city = ''Izmir'',
      is_paid = (0 < sum_list ps), is_deleted = del,
      deleted_at = (if del then Some (at_time 2026 11 3 9) else None),
      created_at = at_time 2026 11 2 9\<rparr>"

definition code_row :: "int \<Rightarrow> string \<Rightarrow> bool \<Rightarrow> partnership_code_row" where
  "code_row i s act = \<lparr>pc_id = i, code = s, pc_is_active = act, pc_created_at = at_time 2026 11 1 9\<rparr>"

definition partner_db :: db where
  "partner_db =
     \<lparr>users = [admin],
      customers = [customer_row 1 [100] (Some ''PARTNER10'') False,
                   customer_row 2 [0] (Some ''PARTNER10'') False,
                   customer_row 3 [500] (Some ''PARTNER10'') True,
                   customer_row 4 [40, 2] (Some ''SPRING'') False,
                   customer_row 5 [42] (Some ''AUTUMN'') False],
      partnership_codes = [code_row 1 ''OLD5'' False, code_row 2 ''SPRING'' True,
                           code_row 3 ''PARTNER10'' True, code_row 4 ''AUTUMN'' False],
      transactions = []\<rparr>"

text \<open>
  A store with three users: the administrator, a protected account and a clerk; and two
  update payloads.
\<close>

definition staff :: "int \<Rightarrow> string \<Rightarrow> user" where
  "staff i e = \<lparr>u_id = i, email = e, hashed_password = ''h'', is_active = True,
     can_manage_customers = True, can_view_financials = False,
     can_manage_partnership_codes = False, can_view_partnership_stats = True,
     can_manage_access = False\<rparr>"

definition staff_db :: db where
  "staff_db = \<lparr>users = [admin, staff 2 ''gokhan@kampus.com'', staff 3 ''clerk@kampus.com''],
     customers = [], partnership_codes = [], transactions = []\<rparr>"

definition flags_off :: user_update where
  "flags_off = \<lparr>upd_can_manage_customers = Some False, upd_can_view_financials = None,
     upd_can_manage_partnership_codes = None, upd_can_view_partnership_stats = None,
     upd_can_manage_access = None, upd_is_active = None\<rparr>"


text \<open>
  A ledger of three customers, the first of them soft-deleted, and five transactions: one
  of the soft-deleted customer, one of the second customer, one whose customer does not
  exist, a deleted one of the second customer, and one of the third customer. And a store
  whose second customer was soft-deleted on 3 November 2026 together with the payment,
  while the first customer and the first payment are live.
\<close>

definition tx_row :: "int \<Rightarrow> int \<Rightarrow> int \<Rightarrow> bool \<Rightarrow> financial_transaction" where
  "tx_row i cid a del =
     \<lparr>t_id = i, customer_id = cid, amount = a, transaction_date = at_time 2026 11 2 9,
      t_is_deleted = del\<rparr>"

definition ledger_db :: db where
  "ledger_db =
     \<lparr>users = [admin],
      customers = [customer_row 1 [70] None True,
                   (customer_row 2 [100] None False)\<lparr>full_name := ''Bora''\<rparr>,
                   (customer_row 3 [20, 30] None False)\<lparr>full_name := ''Cem''\<rparr>],
      partnership_codes = [],
      transactions = [tx_row 1 1 70 False, tx_row 2 2 100 False, tx_row 3 9 30 False,
                      tx_row 4 2 55 True, tx_row 5 3 50 False]\<rparr>"

definition cancelled_db :: db where
  "cancelled_db =
     \<lparr>users = [admin],
      customers = [customer_row 1 [100] None False, customer_row 2 [70] None True],
      partnership_codes = [],
      transactions = [tx_row 1 1 100 False, tx_row 2 2 70 True]\<rparr>"

section \<open>Queries on a table\<close>

lemma first_None_iff: "first P xs = None \<longleftrightarrow> (\<forall>x\<in>set xs. \<not> P x)"
  by (induction xs) auto

lemma first_SomeD: "first P xs = Some x \<Longrightarrow> x \<in> set xs \<and> P x"
  by (induction xs) (auto split: if_splits)

lemma first_Some_index:
  "first P xs = Some x \<Longrightarrow>
     \<exists>i<length xs. xs ! i = x \<and> (\<forall>j<i. \<not> P (xs ! j)) \<and> update_first P f xs = xs[i := f x]"
proof (induction xs)
  case Nil
  then show ?case by simp
next
  case (Cons a xs)
  show ?case
  proof (cases "P a")
    case True
    with Cons.prems have "a = x" by simp
    with True show ?thesis by (intro exI[of _ 0]) simp
  next
    case False
    with Cons.prems have "first P xs = Some x" by simp
    from Cons.IH[OF this] obtain i where
      i: "i < length xs" "xs ! i = x" "\<forall>j<i. \<not> P (xs ! j)" "update_first P f xs = xs[i := f x]"
      by blast
    have "\<forall>j<Suc i. \<not> P ((a # xs) ! j)"
      using False i(3) by (auto simp: less_Suc_eq_0_disj)
    with i False show ?thesis by (intro exI[of _ "Suc i"]) simp
  qed
qed

lemma first_update_first:
  "first P xs = Some x \<Longrightarrow> P (f x) \<Longrightarrow> first P (update_first P f xs) = Some (f x)"
  by (induction xs) (auto split: if_splits)

section \<open>Enrollment creation\<close>

text \<open>
  C1. A creation request that passes the guard and the partnership-code validation
  persists one customer whose \<^verbatim>\<open>is_paid\<close> is true exactly when the submitted prices sum
  to more than 0; when they do, exactly one transaction is appended, with that sum as its
  amount and the new customer as its owner, and otherwise the transaction table stays as
  it was. Every other request fails and leaves the store untouched.
\<close>

theorem create_customer_cases:
  "(if (\<exists>cu. token = Some cu \<and> can_manage_customers cu)
       \<and> \<not> partnership_code_rejected d (req_partnership_code customer)
    then \<exists>d' c. create_customer d token customer now = (d', Inr (customer_response_of c))
           \<and> customers d' = customers d @ [c]
           \<and> is_paid c = (sum_list (req_prices customer) > 0)
           \<and> (sum_list (req_prices customer) > 0 \<longrightarrow>
                (\<exists>t. transactions d' = transactions d @ [t]
                   \<and> amount t = sum_list (req_prices customer)
                   \<and> customer_id t = c_id c \<and> \<not> t_is_deleted t))
           \<and> (\<not> sum_list (req_prices customer) > 0 \<longrightarrow> transactions d' = transactions d)
    else \<exists>e. create_customer d token customer now = (d, Inl e))"
  by (auto simp: create_customer_def require_permission_def Let_def new_customer_def
      new_transaction_def split: option.splits)

text \<open>The scenario of the specification: prices 50 and 70 give one transaction of 120.\<close>

theorem create_customer_cases_witness:
  "\<exists>d' c. create_customer empty_db (Some admin) (enrollment [50, 70] None) (at_time 2026 11 4 9)
             = (d', Inr (customer_response_of c))
         \<and> customers d' = [c] \<and> is_paid c
         \<and> (\<exists>t. transactions d' = [t] \<and> amount t = 120 \<and> customer_id t = c_id c
              \<and> \<not> t_is_deleted t)"
  using create_customer_cases[of "Some admin" empty_db "enrollment [50, 70] None" "at_time 2026 11 4 9"]
  by (simp add: admin_def empty_db_def enrollment_def partnership_code_rejected_def)

section \<open>The calendar\<close>

lemma month_cases:
  assumes "1 \<le> m" "m \<le> (12::int)"
  shows "m = 1 \<or> m = 2 \<or> m = 3 \<or> m = 4 \<or> m = 5 \<or> m = 6 \<or> m = 7 \<or> m = 8 \<or> m = 9 \<or> m = 10 \<or> m = 11 \<or> m = 12"
  using assms by presburger

lemma days_in_month_pos:
  assumes "1 \<le> m" "m \<le> 12"
  shows "1 \<le> days_in_month y m"
  using month_cases[OF assms] by (auto simp: days_in_month_def)

lemma days_before_month_step:
  assumes "2 \<le> m" "m \<le> 12"
  shows "days_before_month y m = days_before_month y (m - 1) + days_in_month y (m - 1)"
proof -
  have "m = 2 \<or> m = 3 \<or> m = 4 \<or> m = 5 \<or> m = 6 \<or> m = 7 \<or> m = 8 \<or> m = 9 \<or> m = 10 \<or> m = 11 \<or> m = 12"
    using assms by presburger
  then show ?thesis
    by (auto simp: days_before_month_def days_in_month_def)
qed

lemma div_pred:
  assumes "0 < (k::int)"
  shows "(x - 1) div k = x div k - (if x mod k = 0 then 1 else 0)"
proof (cases "x mod k = 0")
  case True
  have "x = k * (x div k)" using True by (metis add.right_neutral mult_div_mod_eq)
  then have "x - 1 = k * (x div k - 1) + (k - 1)" by (simp add: algebra_simps)
  then have "(x - 1) div k = x div k - 1"
    using assms by (intro int_div_pos_eq[where r = "k - 1"]) auto
  with True show ?thesis by simp
next
  case False
  have "0 \<le> x mod k" "x mod k < k" using assms by simp_all
  then have r: "0 \<le> x mod k - 1" "x mod k - 1 < k" using False by auto
  have "x - 1 = k * (x div k) + (x mod k - 1)" by (simp add: algebra_simps)
  then have "(x - 1) div k = x div k"
    using r by (intro int_div_pos_eq[where r = "x mod k - 1"]) auto
  with False show ?thesis by simp
qed

lemma mod_100_4: "(x::int) mod 100 = 0 \<Longrightarrow> x mod 4 = 0"
proof -
  assume "x mod 100 = 0"
  then have "100 dvd x" by (simp add: dvd_eq_mod_eq_0)
  moreover have "(4::int) dvd 100" by simp
  ultimately have "4 dvd x" by (rule dvd_trans[rotated])
  then show ?thesis by (simp add: dvd_eq_mod_eq_0)
qed

lemma mod_400_100: "(x::int) mod 400 = 0 \<Longrightarrow> x mod 100 = 0"
proof -
  assume "x mod 400 = 0"
  then have "400 dvd x" by (simp add: dvd_eq_mod_eq_0)
  moreover have "(100::int) dvd 400" by simp
  ultimately have "100 dvd x" by (rule dvd_trans[rotated])
  then show ?thesis by (simp add: dvd_eq_mod_eq_0)
qed

lemma days_before_year_step:
  "days_before_year y = days_before_year (y - 1) + 365 + (if is_leap (y - 1) then 1 else 0)"
proof -
  define x where "x = y - 1"
  have d4: "(x - 1) div 4 = x div 4 - (if x mod 4 = 0 then 1 else 0)" by (rule div_pred) simp
  have d100: "(x - 1) div 100 = x div 100 - (if x mod 100 = 0 then 1 else 0)" by (rule div_pred) simp
  have d400: "(x - 1) div 400 = x div 400 - (if x mod 400 = 0 then 1 else 0)" by (rule div_pred) simp
  have a: "days_before_year (y - 1) = (x - 1) * 365 + (x - 1) div 4 - (x - 1) div 100 + (x - 1) div 400"
    unfolding days_before_year_def x_def by simp
  have b: "days_before_year y = x * 365 + x div 4 - x div 100 + x div 400"
    unfolding days_before_year_def x_def by simp
  have c: "is_leap (y - 1) = (x mod 4 = 0 \<and> (x mod 100 \<noteq> 0 \<or> x mod 400 = 0))"
    unfolding is_leap_def x_def by simp
  show ?thesis
  proof (cases "x mod 4 = 0")
    case False
    then have "x mod 100 \<noteq> 0" "x mod 400 \<noteq> 0"
      using mod_100_4[of x] mod_400_100[of x] by argo+
    with False show ?thesis unfolding a b c d4 d100 d400 by simp
  next
    case y4: True
    show ?thesis
    proof (cases "x mod 100 = 0")
      case False
      then have "x mod 400 \<noteq> 0" using mod_400_100[of x] by argo
      with y4 False show ?thesis unfolding a b c d4 d100 d400 by simp
    next
      case True
      with y4 show ?thesis unfolding a b c d4 d100 d400 by simp
    qed
  qed
qed

lemma days_before_year_nonneg:
  assumes "1 \<le> y"
  shows "0 \<le> days_before_year y"
proof -
  have x: "0 \<le> y - 1" using assms by simp
  have "(y - 1) div 100 \<le> (y - 1) div 4"
    using x by (intro zdiv_mono2) simp_all
  moreover have "0 \<le> (y - 1) div 400" using x by (simp add: pos_imp_zdiv_nonneg_iff)
  ultimately show ?thesis using x unfolding days_before_year_def by simp
qed

lemma days_before_month_nonneg:
  assumes "1 \<le> m" "m \<le> 12"
  shows "0 \<le> days_before_month y m"
  using month_cases[OF assms] by (auto simp: days_before_month_def)

lemma toordinal_pos: "valid_datetime t \<Longrightarrow> 1 \<le> toordinal t"
  using days_before_year_nonneg[of "year t"] days_before_month_nonneg[of "month t" "year t"]
  by (simp add: valid_datetime_def toordinal_def)


lemma prev_day_ok:
  assumes v: "valid_datetime t" and o: "1 < toordinal t"
  shows "\<exists>t'. prev_day t = Some t' \<and> valid_datetime t' \<and> toordinal t' = toordinal t - 1"
proof (cases "1 < day t")
  case True
  then show ?thesis using v by (simp add: prev_day_def valid_datetime_def toordinal_def)
next
  case d1: False
  then have d: "day t = 1" using v by (simp add: valid_datetime_def)
  show ?thesis
  proof (cases "1 < month t")
    case True
    then have m: "2 \<le> month t" "month t \<le> 12" "1 \<le> month t - 1" "month t - 1 \<le> 12"
      using v by (simp_all add: valid_datetime_def)
    show ?thesis
      using v d True days_before_month_step[OF m(1,2), of "year t"]
        days_in_month_pos[OF m(3,4), of "year t"]
      by (simp add: prev_day_def valid_datetime_def toordinal_def)
  next
    case False
    then have m: "month t = 1" using v by (simp add: valid_datetime_def)
    have "year t \<noteq> 1"
    proof
      assume "year t = 1"
      then have "toordinal t = 1"
        using d m by (simp add: toordinal_def days_before_month_def days_before_year_def)
      then show False using o by simp
    qed
    then have y: "1 < year t" using v by (simp add: valid_datetime_def)
    show ?thesis
      using v d m y days_before_year_step[of "year t"]
      by (simp add: prev_day_def valid_datetime_def toordinal_def days_before_month_def
          days_in_month_def)
  qed
qed

lemma prev_days_ok:
  "valid_datetime t \<Longrightarrow> int k < toordinal t \<Longrightarrow> \<exists>t'. prev_days k t = Some t'"
proof (induction k arbitrary: t)
  case 0
  then show ?case by simp
next
  case (Suc k)
  then have "1 < toordinal t" by simp
  from prev_day_ok[OF Suc.prems(1) this] obtain t1 where
    t1: "prev_day t = Some t1" "valid_datetime t1" "toordinal t1 = toordinal t - 1" by blast
  have "int k < toordinal t1" using Suc.prems(2) t1(3) by simp
  from Suc.IH[OF t1(2) this] show ?case using t1(1) by simp
qed

lemma weekday_range: "0 \<le> weekday t" "weekday t < 7"
  by (simp_all add: weekday_def)

lemma weekday_less_toordinal:
  assumes "valid_datetime t"
  shows "weekday t < toordinal t"
proof -
  have "1 \<le> toordinal t" using assms by (rule toordinal_pos)
  then show ?thesis unfolding weekday_def by presburger
qed

lemma prev_day_le: "prev_day t = Some t' \<Longrightarrow> dt_key t' \<le> dt_key t"
  by (auto simp: prev_day_def dt_key_def split: if_splits)

lemma prev_days_le: "prev_days k t = Some t' \<Longrightarrow> dt_key t' \<le> dt_key t"
proof (induction k arbitrary: t)
  case 0
  then show ?case by simp
next
  case (Suc k)
  then obtain t1 where t1: "prev_day t = Some t1" "prev_days k t1 = Some t'"
    by (auto split: option.splits)
  have "dt_key t' \<le> dt_key t1" using Suc.IH[OF t1(2)] .
  also have "dt_key t1 \<le> dt_key t" using prev_day_le[OF t1(1)] .
  finally show ?case .
qed


lemma week_start_ok:
  assumes "valid_datetime now"
  shows "\<exists>w. sub_days (now\<lparr>hour := 0, minute := 0, second := 0, microsecond := 0\<rparr>) (weekday now)
           = Some w
         \<and> dt_key w \<le> dt_key (now\<lparr>hour := 0, minute := 0, second := 0, microsecond := 0\<rparr>)"
proof -
  let ?t = "now\<lparr>hour := 0, minute := 0, second := 0, microsecond := 0\<rparr>"
  have v: "valid_datetime ?t" using assms by (simp add: valid_datetime_def)
  have "toordinal ?t = toordinal now" by (simp add: toordinal_def)
  then have "int (nat (weekday now)) < toordinal ?t"
    using weekday_less_toordinal[OF assms] weekday_range(1)[of now] by simp
  from prev_days_ok[OF v this] obtain w where w: "prev_days (nat (weekday now)) ?t = Some w" ..
  then show ?thesis using prev_days_le[OF w] by (simp add: sub_days_def)
qed

lemma filter_sum_mono:
  fixes f :: "'a \<Rightarrow> int"
  assumes "\<forall>x\<in>set xs. 0 \<le> f x" "\<forall>x\<in>set xs. P x \<longrightarrow> Q x"
  shows "sum_list (map f (filter P xs)) \<le> sum_list (map f (filter Q xs))"
  using assms by (induction xs) auto

lemma window_total_mono:
  assumes "dt_key s1 \<le> dt_key s2" "\<forall>t\<in>set txs. 0 \<le> amount t"
  shows "window_total txs s2 \<le> window_total txs s1"
  unfolding window_total_def
  using assms by (intro filter_sum_mono) (auto simp: dt_ge_def)

lemma window_total_le_total:
  assumes "\<forall>t\<in>set txs. 0 \<le> amount t"
  shows "window_total txs s \<le> sum_list (map amount txs)"
  using filter_sum_mono[of txs amount "\<lambda>t. dt_ge (transaction_date t) s" "\<lambda>t. True"] assms
  by (simp add: window_total_def)

lemma window_total_nonneg:
  assumes "\<forall>t\<in>set txs. 0 \<le> amount t"
  shows "0 \<le> window_total txs s"
  unfolding window_total_def using assms by (intro sum_list_nonneg) auto

lemma month_start_le_today:
  assumes "valid_datetime now"
  shows "dt_key (now\<lparr>day := 1, hour := 0, minute := 0, second := 0, microsecond := 0\<rparr>)
       \<le> dt_key (now\<lparr>hour := 0, minute := 0, second := 0, microsecond := 0\<rparr>)"
  using assms by (simp add: dt_key_def valid_datetime_def)

lemma year_start_le_month_start:
  assumes "valid_datetime now"
  shows "dt_key (now\<lparr>month := 1, day := 1, hour := 0, minute := 0, second := 0, microsecond := 0\<rparr>)
       \<le> dt_key (now\<lparr>day := 1, hour := 0, minute := 0, second := 0, microsecond := 0\<rparr>)"
  using assms by (simp add: dt_key_def valid_datetime_def)

lemma get_financials_result:
  assumes "token = Some cu" "can_view_financials cu"
    and "sub_days (now\<lparr>hour := 0, minute := 0, second := 0, microsecond := 0\<rparr>) (weekday now)
           = Some w"
  shows "get_financials d token now =
    (d, Inr \<lparr>period =
          \<lparr>daily = window_total (filter (\<lambda>t. t_is_deleted t = False) (transactions d))
                     (now\<lparr>hour := 0, minute := 0, second := 0, microsecond := 0\<rparr>),
           weekly = window_total (filter (\<lambda>t. t_is_deleted t = False) (transactions d)) w,
           monthly = window_total (filter (\<lambda>t. t_is_deleted t = False) (transactions d))
                     (now\<lparr>day := 1, hour := 0, minute := 0, second := 0, microsecond := 0\<rparr>),
           yearly = window_total (filter (\<lambda>t. t_is_deleted t = False) (transactions d))
                     (now\<lparr>month := 1, day := 1, hour := 0, minute := 0, second := 0,
                           microsecond := 0\<rparr>)\<rparr>,
         details = collect_details d (filter (\<lambda>t. t_is_deleted t = False) (transactions d)) [],
         total = sum_list (map amount (filter (\<lambda>t. t_is_deleted t = False) (transactions d)))\<rparr>)"
  using assms by (simp add: get_financials_def require_permission_def Let_def)

text \<open>
  C2, as amended. For a caller who may view the financials, a valid clock value and
  non-negative amounts on the transactions that are not deleted, the endpoint answers, and
  \<open>0 \<le> daily \<le> monthly \<le> yearly \<le> total\<close> and \<open>daily \<le> weekly \<le> total\<close>. The weekly
  total is not bounded by the monthly or the yearly one: the Monday that starts the week
  can lie in the month or the year before.
\<close>

theorem financial_windows_ordered:
  assumes "token = Some cu" "can_view_financials cu" "valid_datetime now"
    and "\<forall>t\<in>set (transactions d). \<not> t_is_deleted t \<longrightarrow> 0 \<le> amount t"
  shows "\<exists>r. get_financials d token now = (d, Inr r)
           \<and> 0 \<le> daily (period r)
           \<and> daily (period r) \<le> weekly (period r)
           \<and> daily (period r) \<le> monthly (period r)
           \<and> monthly (period r) \<le> yearly (period r)
           \<and> yearly (period r) \<le> total r
           \<and> weekly (period r) \<le> total r"
proof -
  let ?txs = "filter (\<lambda>t. t_is_deleted t = False) (transactions d)"
  have nn: "\<forall>t\<in>set ?txs. 0 \<le> amount t" using assms(4) by simp
  from week_start_ok[OF assms(3)] obtain w where
    w: "sub_days (now\<lparr>hour := 0, minute := 0, second := 0, microsecond := 0\<rparr>) (weekday now) = Some w"
    and wle: "dt_key w \<le> dt_key (now\<lparr>hour := 0, minute := 0, second := 0, microsecond := 0\<rparr>)"
    by blast
  show ?thesis
    unfolding get_financials_result[OF assms(1,2) w]
    using window_total_nonneg[OF nn] window_total_mono[OF wle nn]
      window_total_mono[OF month_start_le_today[OF assms(3)] nn]
      window_total_mono[OF year_start_le_month_start[OF assms(3)] nn]
      window_total_le_total[OF nn]
    by simp
qed

text \<open>The hypotheses hold on Tuesday 1 December 2026, with one payment of 100 in the store.\<close>

theorem financial_windows_ordered_witness:
  "\<exists>r. get_financials (paid_on (at_time 2026 11 30 12)) (Some admin) (at_time 2026 12 1 10)
          = (paid_on (at_time 2026 11 30 12), Inr r)
       \<and> 0 \<le> daily (period r)
       \<and> daily (period r) \<le> weekly (period r)
       \<and> daily (period r) \<le> monthly (period r)
       \<and> monthly (period r) \<le> yearly (period r)
       \<and> yearly (period r) \<le> total r
       \<and> weekly (period r) \<le> total r"
  by (rule financial_windows_ordered[of _ admin])
    (simp_all add: admin_def valid_datetime_def at_time_def days_in_month_def paid_on_def)

text \<open>
  The ordering as the specification states it fails on that day: the payment of Monday
  30 November is in the week and not in the month, so the weekly total is 100 and the
  monthly total is 0.
\<close>

theorem weekly_total_exceeds_monthly:
  "snd (get_financials (paid_on (at_time 2026 11 30 12)) (Some admin) (at_time 2026 12 1 10))
     = Inr month_edge_response
   \<and> map amount (transactions (paid_on (at_time 2026 11 30 12))) = [100]
   \<and> \<not> windows_nested month_edge_response"
  by code_simp

section \<open>Customer soft-deletion\<close>

text \<open>
  C3. For a caller who may manage customers: when no customer has the identifier, the
  request fails with \<open>NotFound\<close> and the store is unchanged. Otherwise it succeeds; the
  first row with the identifier (the row the query returns) gets the deleted flag and the
  deletion timestamp, every transaction of that customer that was not deleted gets the
  deleted flag, and all other rows of all four tables are unchanged.
\<close>

theorem delete_customer_effect:
  assumes "token = Some cu" "can_manage_customers cu"
  shows "(if \<forall>c\<in>set (customers d). c_id c \<noteq> cid
          then delete_customer d token cid now = (d, Inl NotFound)
          else \<exists>d' msg i. delete_customer d token cid now = (d', Inr msg)
             \<and> i < length (customers d) \<and> c_id (customers d ! i) = cid
             \<and> (\<forall>j<i. c_id (customers d ! j) \<noteq> cid)
             \<and> customers d' =
                 (customers d)[i := (customers d ! i)\<lparr>is_deleted := True, deleted_at := Some now\<rparr>]
             \<and> transactions d' =
                 map (\<lambda>t. if customer_id t = cid \<and> \<not> t_is_deleted t
                          then t\<lparr>t_is_deleted := True\<rparr> else t) (transactions d)
             \<and> users d' = users d \<and> partnership_codes d' = partnership_codes d)"
proof (cases "\<forall>c\<in>set (customers d). c_id c \<noteq> cid")
  case True
  then have "first (\<lambda>c. c_id c = cid) (customers d) = None" by (simp add: first_None_iff)
  with True assms show ?thesis by (simp add: delete_customer_def require_permission_def)
next
  case False
  then obtain c where c: "first (\<lambda>c. c_id c = cid) (customers d) = Some c"
    using first_None_iff[of "\<lambda>c. c_id c = cid" "customers d"] by (cases "first (\<lambda>c. c_id c = cid) (customers d)") auto
  from first_Some_index[OF c, of "mark_deleted now"] obtain i where
    i: "i < length (customers d)" "customers d ! i = c" "\<forall>j<i. c_id (customers d ! j) \<noteq> cid"
       "update_first (\<lambda>c. c_id c = cid) (mark_deleted now) (customers d)
          = (customers d)[i := mark_deleted now c]"
    by blast
  have cid: "c_id c = cid" using first_SomeD[OF c] by simp
  have casc: "cascade cid = (\<lambda>t. if customer_id t = cid \<and> \<not> t_is_deleted t
                          then t\<lparr>t_is_deleted := True\<rparr> else t)"
    by (rule ext) (simp add: cascade_def)
  show ?thesis
    using False assms c i cid
    by (simp add: delete_customer_def require_permission_def mark_deleted_def casc)
      (intro exI[of _ i], simp)
qed


text \<open>Deleting customer 1 of the one-payment store, and an identifier that no row has.\<close>

theorem delete_customer_effect_witness:
  "(\<exists>d' msg. delete_customer (paid_on (at_time 2026 11 30 12)) (Some admin) 1 (at_time 2026 12 1 10)
       = (d', Inr msg)
     \<and> map is_deleted (customers d') = [True]
     \<and> map deleted_at (customers d') = [Some (at_time 2026 12 1 10)]
     \<and> map t_is_deleted (transactions d') = [True])
   \<and> delete_customer (paid_on (at_time 2026 11 30 12)) (Some admin) 7 (at_time 2026 12 1 10)
     = (paid_on (at_time 2026 11 30 12), Inl NotFound)"
proof -
  let ?d = "paid_on (at_time 2026 11 30 12)" and ?now = "at_time 2026 12 1 10"
  have a: "can_manage_customers admin" by (simp add: admin_def)
  have "\<not> (\<forall>c\<in>set (customers ?d). c_id c \<noteq> 1)" by (simp add: paid_on_def)
  with delete_customer_effect[OF refl a, of ?d 1 ?now] obtain d' msg i where
    r: "delete_customer ?d (Some admin) 1 ?now = (d', Inr msg)"
       "i < length (customers ?d)"
       "customers d' = (customers ?d)[i := (customers ?d ! i)\<lparr>is_deleted := True, deleted_at := Some ?now\<rparr>]"
       "transactions d' = map (\<lambda>t. if customer_id t = 1 \<and> \<not> t_is_deleted t
                          then t\<lparr>t_is_deleted := True\<rparr> else t) (transactions ?d)"
    by auto
  from r(2) have "i = 0" by (simp add: paid_on_def)
  with r have "map is_deleted (customers d') = [True]"
    "map deleted_at (customers d') = [Some ?now]"
    "map t_is_deleted (transactions d') = [True]"
    by (simp_all add: paid_on_def)
  with r(1) have first: "\<exists>d' msg. delete_customer ?d (Some admin) 1 ?now = (d', Inr msg)
     \<and> map is_deleted (customers d') = [True]
     \<and> map deleted_at (customers d') = [Some ?now]
     \<and> map t_is_deleted (transactions d') = [True]"
    by (intro exI[of _ d'] exI[of _ msg]) simp
  have "\<forall>c\<in>set (customers ?d). c_id c \<noteq> 7" by (simp add: paid_on_def)
  with delete_customer_effect[OF refl a, of ?d 7 ?now]
  have "delete_customer ?d (Some admin) 7 ?now = (?d, Inl NotFound)" by simp
  with first show ?thesis by simp
qed

section \<open>The statistics per partnership code\<close>

lemma add_prices_sum:
  "add_prices cs acc = acc + sum_list (map (\<lambda>c. sum_list (loads_or_empty (prices c))) cs)"
  by (induction cs arbitrary: acc) simp_all

lemma sorted_reverse_sorted:
  "sorted_wrt (\<lambda>a b. key b \<le> key a) (sorted_reverse key xs)"
proof -
  have "sorted (map key (sort_key key (rev xs)))" by (rule sorted_sort_key)
  then have "sorted_wrt (\<lambda>a b. key a \<le> key b) (sort_key key (rev xs))"
    by (simp add: sorted_map)
  then show ?thesis by (simp add: sorted_reverse_def sorted_wrt_rev)
qed

lemma sorted_reverse_stable:
  "filter (\<lambda>x. key x = k) (sorted_reverse key xs) = filter (\<lambda>x. key x = k) xs"
proof -
  have "filter (\<lambda>x. key x = k) (sorted_reverse key xs)
      = rev (filter (\<lambda>x. key x = k) (sort_key key (rev xs)))"
    by (simp add: sorted_reverse_def rev_filter)
  also have "\<dots> = rev (filter (\<lambda>x. key x = k) (rev xs))"
    by (simp only: sort_key_stable)
  also have "\<dots> = filter (\<lambda>x. key x = k) xs" by (simp add: rev_filter)
  finally show ?thesis .
qed

text \<open>
  C4. For a caller who may view the statistics, the endpoint answers with one entry for
  every code, active or not: the number of customers that are not deleted and carry the
  code's string, and the sum over them of the sums of their decoded prices. The entries are
  in descending order of \<^verbatim>\<open>total_amount\<close>, and those with equal totals are in the order in which
  the codes are enumerated. The answer is the same whatever the transaction table holds.
\<close>

theorem partnership_stats_content:
  assumes "token = Some cu" "can_view_partnership_stats cu"
  shows "\<exists>stats. get_partnership_stats d token = (d, Inr stats)
     \<and> sorted_wrt (\<lambda>a b. total_amount a \<ge> total_amount b) stats
     \<and> (\<forall>k. filter (\<lambda>s. total_amount s = k) stats
            = filter (\<lambda>s. total_amount s = k)
                (map (\<lambda>pc.
                   let cs = filter (\<lambda>c. \<not> is_deleted c \<and> partnership_code c = Some (code pc))
                              (customers d)
                   in \<lparr>ps_code = code pc, customer_count = length cs,
                       total_amount = sum_list (map (\<lambda>c. sum_list (loads_or_empty (prices c))) cs)\<rparr>)
                 (partnership_codes d)))
     \<and> (\<forall>txs. snd (get_partnership_stats (d\<lparr>transactions := txs\<rparr>) token) = Inr stats)"
proof -
  let ?E = "\<lambda>pc.
                   let cs = filter (\<lambda>c. \<not> is_deleted c \<and> partnership_code c = Some (code pc))
                              (customers d)
                   in \<lparr>ps_code = code pc, customer_count = length cs,
                       total_amount = sum_list (map (\<lambda>c. sum_list (loads_or_empty (prices c))) cs)\<rparr>"
  let ?S = "sorted_reverse total_amount (map ?E (partnership_codes d))"
  have cs: "code_stats d = ?E"
    by (rule ext) (simp add: code_stats_def Let_def add_prices_sum conj_commute)
  have ind: "code_stats (d\<lparr>transactions := txs\<rparr>) = code_stats d" for txs
    by (rule ext) (simp add: code_stats_def)
  have f1: "get_partnership_stats d token = (d, Inr ?S)"
    using assms by (simp only: cs[symmetric]) (simp add: get_partnership_stats_def require_permission_def)
  have f2: "sorted_wrt (\<lambda>a b. total_amount a \<ge> total_amount b) ?S"
    by (rule sorted_reverse_sorted)
  have f3: "\<forall>k. filter (\<lambda>s. total_amount s = k) ?S
            = filter (\<lambda>s. total_amount s = k) (map ?E (partnership_codes d))"
    by (intro allI) (rule sorted_reverse_stable)
  have f4: "\<forall>txs. snd (get_partnership_stats (d\<lparr>transactions := txs\<rparr>) token) = Inr ?S"
    using assms
    by (simp only: cs[symmetric]) (simp add: get_partnership_stats_def require_permission_def ind)
  show ?thesis
    by (rule exI[of _ ?S], intro conjI, rule f1, rule f2, rule f3, rule f4)
qed

text \<open>
  The scenario of the specification, extended by a tie: \<^verbatim>\<open>PARTNER10\<close> has two live customers
  and 100 in total; \<^verbatim>\<open>SPRING\<close> is enumerated before \<^verbatim>\<open>AUTUMN\<close> and stays before it.
\<close>

theorem partnership_stats_content_witness:
  "\<exists>stats. get_partnership_stats partner_db (Some admin) = (partner_db, Inr stats)
     \<and> sorted_wrt (\<lambda>a b. total_amount a \<ge> total_amount b) stats
     \<and> stats = [\<lparr>ps_code = ''PARTNER10'', customer_count = 2, total_amount = 100\<rparr>,
                \<lparr>ps_code = ''SPRING'', customer_count = 1, total_amount = 42\<rparr>,
                \<lparr>ps_code = ''AUTUMN'', customer_count = 1, total_amount = 42\<rparr>,
                \<lparr>ps_code = ''OLD5'', customer_count = 0, total_amount = 0\<rparr>]"
proof -
  have a: "can_view_partnership_stats admin" by (simp add: admin_def)
  from partnership_stats_content[OF refl a, of partner_db] obtain stats where
    s: "get_partnership_stats partner_db (Some admin) = (partner_db, Inr stats)"
       "sorted_wrt (\<lambda>a b. total_amount a \<ge> total_amount b) stats"
    by blast
  have "get_partnership_stats partner_db (Some admin)
      = (partner_db, Inr [\<lparr>ps_code = ''PARTNER10'', customer_count = 2, total_amount = 100\<rparr>,
                \<lparr>ps_code = ''SPRING'', customer_count = 1, total_amount = 42\<rparr>,
                \<lparr>ps_code = ''AUTUMN'', customer_count = 1, total_amount = 42\<rparr>,
                \<lparr>ps_code = ''OLD5'', customer_count = 0, total_amount = 0\<rparr>])"
    by code_simp
  with s show ?thesis by simp
qed

section \<open>Validation of the partnership code\<close>

text \<open>
  C7, as amended. For a caller who may manage customers, a request that supplies a
  non-empty partnership code fails with \<open>InvalidReference\<close> and leaves the store as it was
  whenever no row with exactly that code string is active.
\<close>

theorem create_customer_rejects_code:
  assumes "token = Some cu" "can_manage_customers cu"
    and "req_partnership_code customer = Some s" "s \<noteq> []"
    and "\<forall>pc\<in>set (partnership_codes d). code pc = s \<longrightarrow> \<not> pc_is_active pc"
  shows "create_customer d token customer now = (d, Inl InvalidReference)"
proof -
  have "first (\<lambda>pc. code pc = s \<and> pc_is_active pc) (partnership_codes d) = None"
    using assms(5) by (auto simp: first_None_iff)
  then have "partnership_code_rejected d (req_partnership_code customer)"
    using assms(3,4) by (simp add: partnership_code_rejected_def)
  then show ?thesis
    using assms(1,2) by (simp add: create_customer_def require_permission_def)
qed

text \<open>
  An inactive code, and a code that differs from an active one only in the case of its
  letters, are both rejected.
\<close>

theorem create_customer_rejects_code_witness:
  "create_customer partner_db (Some admin) (enrollment [100] (Some ''OLD5'')) (at_time 2026 11 4 9)
     = (partner_db, Inl InvalidReference)
   \<and> create_customer partner_db (Some admin) (enrollment [100] (Some ''partner10''))
       (at_time 2026 11 4 9)
     = (partner_db, Inl InvalidReference)"
proof -
  have a: "can_manage_customers admin" by (simp add: admin_def)
  have 1: "\<forall>pc\<in>set (partnership_codes partner_db). code pc = ''OLD5'' \<longrightarrow> \<not> pc_is_active pc"
    by (simp add: partner_db_def code_row_def)
  have 2: "\<forall>pc\<in>set (partnership_codes partner_db). code pc = ''partner10'' \<longrightarrow> \<not> pc_is_active pc"
    by (simp add: partner_db_def code_row_def)
  have r: "req_partnership_code (enrollment [100] (Some c)) = Some c" for c
    by (simp add: enrollment_def)
  show ?thesis
    using create_customer_rejects_code[OF refl a r _ 1, of "at_time 2026 11 4 9"]
      create_customer_rejects_code[OF refl a r _ 2, of "at_time 2026 11 4 9"]
    by simp
qed

text \<open>
  Without the restriction to non-empty codes the statement fails: the empty string is a
  supplied code that no row carries, and the request succeeds and writes a customer and a
  transaction.
\<close>

theorem empty_code_is_not_validated:
  "req_partnership_code (enrollment [100] (Some '''')) = Some ''''
   \<and> first (\<lambda>pc. code pc = '''' \<and> pc_is_active pc) (partnership_codes empty_db) = None
   \<and> snd (create_customer empty_db (Some admin) (enrollment [100] (Some '''')) (at_time 2026 11 4 9))
       \<noteq> Inl InvalidReference
   \<and> length (customers (fst (create_customer empty_db (Some admin) (enrollment [100] (Some ''''))
        (at_time 2026 11 4 9)))) = 1
   \<and> length (transactions (fst (create_customer empty_db (Some admin) (enrollment [100] (Some ''''))
        (at_time 2026 11 4 9)))) = 1"
  by (simp add: create_customer_def require_permission_def partnership_code_rejected_def
      enrollment_def empty_db_def admin_def Let_def)

text \<open>
  C9. A request whose partnership code is the empty string skips the validation: for a
  caller who may manage customers it succeeds on every store, also on one without a code
  row for the empty string, and the customer is stored with the empty string as its code.
\<close>

theorem create_customer_empty_code:
  assumes "token = Some cu" "can_manage_customers cu"
    and "req_partnership_code customer = Some []"
  shows "\<exists>d' c. create_customer d token customer now = (d', Inr (customer_response_of c))
           \<and> customers d' = customers d @ [c]
           \<and> partnership_code c = Some []"
  using assms
  by (simp add: create_customer_def require_permission_def partnership_code_rejected_def
      Let_def new_customer_def)

text \<open>A store none of whose codes is the empty string.\<close>

theorem create_customer_empty_code_witness:
  "[] \<notin> set (map code (partnership_codes partner_db))
   \<and> (\<exists>d' c. create_customer partner_db (Some admin) (enrollment [0] (Some [])) (at_time 2026 11 4 9)
               = (d', Inr (customer_response_of c))
           \<and> customers d' = customers partner_db @ [c]
           \<and> partnership_code c = Some [])"
proof -
  have a: "can_manage_customers admin" by (simp add: admin_def)
  have r: "req_partnership_code (enrollment [0] (Some [])) = Some []"
    by (simp add: enrollment_def)
  have "[] \<notin> set (map code (partnership_codes partner_db))"
    by (simp add: partner_db_def code_row_def)
  with create_customer_empty_code[OF refl a r, of partner_db "at_time 2026 11 4 9"]
  show ?thesis by simp
qed


section \<open>Protected users and partial updates\<close>

text \<open>
  C5. When the identifier resolves to a user whose email is one of the two protected
  addresses, the update and the deactivation both fail with \<open>Forbidden\<close> and leave the
  store unchanged, for every authenticated caller, whatever its flags, and every payload.
\<close>

theorem protected_user_forbidden:
  assumes "first (\<lambda>u. u_id u = uid) (users d) = Some u"
    and "email u = ''gokhan@kampus.com'' \<or> email u = ''emre@kampus.com''"
  shows "update_user d (Some cu) uid user_data = (d, Inl Forbidden)
       \<and> delete_user d (Some cu) uid = (d, Inl Forbidden)"
  using assms
  by (cases "can_manage_access cu")
    (auto simp: update_user_def delete_user_def require_permission_def protected_emails_def)

text \<open>The administrator and a clerk without \<^verbatim>\<open>can_manage_access\<close> against the protected account.\<close>

theorem protected_user_forbidden_witness:
  "first (\<lambda>u. u_id u = 2) (users staff_db) = Some (staff 2 ''gokhan@kampus.com'')
   \<and> update_user staff_db (Some admin) 2 flags_off = (staff_db, Inl Forbidden)
   \<and> delete_user staff_db (Some admin) 2 = (staff_db, Inl Forbidden)
   \<and> update_user staff_db (Some (staff 3 ''clerk@kampus.com'')) 2 flags_off = (staff_db, Inl Forbidden)
   \<and> delete_user staff_db (Some (staff 3 ''clerk@kampus.com'')) 2 = (staff_db, Inl Forbidden)"
proof -
  have f: "first (\<lambda>u. u_id u = 2) (users staff_db) = Some (staff 2 ''gokhan@kampus.com'')"
    by (simp add: staff_db_def admin_def staff_def)
  have e: "email (staff 2 ''gokhan@kampus.com'') = ''gokhan@kampus.com''
         \<or> email (staff 2 ''gokhan@kampus.com'') = ''emre@kampus.com''"
    by (simp add: staff_def)
  show ?thesis
    using f protected_user_forbidden[OF f e, of admin flags_off]
      protected_user_forbidden[OF f e, of "staff 3 ''clerk@kampus.com''" flags_off]
    by simp
qed




section \<open>The financial detail list\<close>

lemma collect_details_concat:
  "collect_details d ts ds =
     ds @ concat (map (\<lambda>t.
       case first (\<lambda>c. c_id c = customer_id t) (customers d) of
         None \<Rightarrow> []
       | Some c \<Rightarrow>
           if \<not> is_deleted c
           then [\<lparr>fd_customer_id = c_id c, customer_name = full_name c, fd_amount = amount t,
                   fd_transaction_date = transaction_date t\<rparr>]
           else []) ts)"
  by (induction ts arbitrary: ds) (simp_all split: option.splits)

lemma concat_map_filter_if:
  "concat (map f (filter P xs)) = concat (map (\<lambda>x. if P x then f x else []) xs)"
  by (induction xs) simp_all

lemma first_filter:
  "first P xs = (case filter P xs of [] \<Rightarrow> None | x # _ \<Rightarrow> Some x)"
  by (induction xs) simp_all

lemma filter_unique_key:
  assumes "distinct (map f xs)"
  shows "filter (\<lambda>c. f c = k \<and> Q c) xs
       = (case filter (\<lambda>c. f c = k) xs of [] \<Rightarrow> [] | c # _ \<Rightarrow> if Q c then [c] else [])"
  using assms
proof (induction xs)
  case Nil
  show ?case by simp
next
  case (Cons x xs)
  show ?case
  proof (cases "f x = k")
    case True
    from Cons.prems have "f x \<notin> f ` set xs" by simp
    then have "\<forall>y\<in>set xs. f y \<noteq> k" using True by (metis imageI)
    then have "filter (\<lambda>c. f c = k) xs = []" "filter (\<lambda>c. f c = k \<and> Q c) xs = []"
      by (simp_all add: filter_empty_conv)
    with True show ?thesis by simp
  next
    case False
    with Cons show ?thesis by simp
  qed
qed

text \<open>
  C8. For a caller who may view the financials and a valid clock value, the endpoint
  answers. Its detail list is made, in table order, of the transactions that are not
  deleted: each of them contributes exactly one entry (customer id, customer name, amount,
  timestamp) when a customer row with its customer id exists and the first such row is not
  deleted, and nothing otherwise. Where the customer identifiers are distinct, as a
  primary key makes them, this is one entry for every pair of a transaction that is not
  deleted and a customer row that has its customer id and is not deleted.
\<close>

theorem financial_details_content:
  assumes "token = Some cu" "can_view_financials cu" "valid_datetime now"
  shows "\<exists>r. get_financials d token now = (d, Inr r)
     \<and> details r = concat (map (\<lambda>t.
          case filter (\<lambda>c. c_id c = customer_id t) (customers d) of
            [] \<Rightarrow> []
          | c # _ \<Rightarrow>
              if is_deleted c then []
              else [\<lparr>fd_customer_id = c_id c, customer_name = full_name c, fd_amount = amount t,
                      fd_transaction_date = transaction_date t\<rparr>])
          (filter (\<lambda>t. \<not> t_is_deleted t) (transactions d)))
     \<and> (distinct (map c_id (customers d)) \<longrightarrow>
          details r = concat (map (\<lambda>t.
            map (\<lambda>c. \<lparr>fd_customer_id = c_id c, customer_name = full_name c, fd_amount = amount t,
                       fd_transaction_date = transaction_date t\<rparr>)
              (filter (\<lambda>c. c_id c = customer_id t \<and> \<not> is_deleted c) (customers d)))
            (filter (\<lambda>t. \<not> t_is_deleted t) (transactions d))))"
proof -
  let ?live = "filter (\<lambda>t. \<not> t_is_deleted t) (transactions d)"
  let ?entry = "\<lambda>t c. \<lparr>fd_customer_id = c_id c, customer_name = full_name c, fd_amount = amount t,
                      fd_transaction_date = transaction_date t\<rparr>"
  let ?one = "\<lambda>t. case filter (\<lambda>c. c_id c = customer_id t) (customers d) of
                  [] \<Rightarrow> [] | c # _ \<Rightarrow> if is_deleted c then [] else [?entry t c]"
  let ?all = "\<lambda>t. map (?entry t)
                  (filter (\<lambda>c. c_id c = customer_id t \<and> \<not> is_deleted c) (customers d))"
  from week_start_ok[OF assms(3)] obtain w where
    w: "sub_days (now\<lparr>hour := 0, minute := 0, second := 0, microsecond := 0\<rparr>) (weekday now) = Some w"
    by blast
  have step: "(case first (\<lambda>c. c_id c = customer_id t) (customers d) of
            None \<Rightarrow> []
          | Some c \<Rightarrow> if \<not> is_deleted c then [?entry t c] else []) = ?one t" for t
    by (simp add: first_filter split: list.splits)
  have f1: "collect_details d (filter (\<lambda>t. t_is_deleted t = False) (transactions d)) []
       = concat (map ?one ?live)"
    by (simp only: collect_details_concat step append_Nil) simp
  have f2: "concat (map ?one ?live) = concat (map ?all ?live)"
    if dist: "distinct (map c_id (customers d))"
  proof -
    have eq: "?all t = ?one t" for t
      unfolding filter_unique_key[OF dist, of "customer_id t" "\<lambda>c. \<not> is_deleted c"]
      by (simp split: list.splits)
    show ?thesis by (simp only: eq)
  qed
  show ?thesis
    unfolding get_financials_result[OF assms(1,2) w]
    using f1 f2 by simp
qed

text \<open>
  In the ledger the first customer row is soft-deleted, so the two entries come from the
  second and the third row. The transaction of the soft-deleted customer, the one without
  a customer row and the deleted one are not listed.
\<close>

theorem financial_details_content_witness:
  "distinct (map c_id (customers ledger_db))
   \<and> map is_deleted (customers ledger_db) = [True, False, False]
   \<and> map customer_id (transactions ledger_db) = [1, 2, 9, 2, 3]
   \<and> map t_is_deleted (transactions ledger_db) = [False, False, False, True, False]
   \<and> (\<exists>r. get_financials ledger_db (Some admin) (at_time 2026 11 4 9) = (ledger_db, Inr r)
        \<and> details r = [\<lparr>fd_customer_id = 2, customer_name = ''Bora'', fd_amount = 100,
                          fd_transaction_date = at_time 2026 11 2 9\<rparr>,
                        \<lparr>fd_customer_id = 3, customer_name = ''Cem'', fd_amount = 50,
                          fd_transaction_date = at_time 2026 11 2 9\<rparr>])"
proof -
  have a: "can_view_financials admin" by (simp add: admin_def)
  have v: "valid_datetime (at_time 2026 11 4 9)"
    by (simp add: valid_datetime_def at_time_def days_in_month_def)
  have dist: "distinct (map c_id (customers ledger_db))"
    by (simp add: ledger_db_def customer_row_def)
  from financial_details_content[OF refl a v, of ledger_db] dist obtain r where
    r: "get_financials ledger_db (Some admin) (at_time 2026 11 4 9) = (ledger_db, Inr r)"
    and ds: "details r = concat (map (\<lambda>t.
            map (\<lambda>c. \<lparr>fd_customer_id = c_id c, customer_name = full_name c, fd_amount = amount t,
                       fd_transaction_date = transaction_date t\<rparr>)
              (filter (\<lambda>c. c_id c = customer_id t \<and> \<not> is_deleted c) (customers ledger_db)))
            (filter (\<lambda>t. \<not> t_is_deleted t) (transactions ledger_db)))"
    by blast
  from ds have "details r = [\<lparr>fd_customer_id = 2, customer_name = ''Bora'', fd_amount = 100,
                          fd_transaction_date = at_time 2026 11 2 9\<rparr>,
                        \<lparr>fd_customer_id = 3, customer_name = ''Cem'', fd_amount = 50,
                          fd_transaction_date = at_time 2026 11 2 9\<rparr>]"
    by (simp add: ledger_db_def customer_row_def tx_row_def)
  with r have "\<exists>r. get_financials ledger_db (Some admin) (at_time 2026 11 4 9) = (ledger_db, Inr r)
        \<and> details r = [\<lparr>fd_customer_id = 2, customer_name = ''Bora'', fd_amount = 100,
                          fd_transaction_date = at_time 2026 11 2 9\<rparr>,
                        \<lparr>fd_customer_id = 3, customer_name = ''Cem'', fd_amount = 50,
                          fd_transaction_date = at_time 2026 11 2 9\<rparr>]"
    by (intro exI[of _ r]) simp
  moreover have "map is_deleted (customers ledger_db) = [True, False, False]"
    "map customer_id (transactions ledger_db) = [1, 2, 9, 2, 3]"
    "map t_is_deleted (transactions ledger_db) = [False, False, False, True, False]"
    by (simp_all add: ledger_db_def customer_row_def tx_row_def)
  ultimately show ?thesis using dist by simp
qed

section \<open>Deleting a customer twice\<close>

text \<open>
  The identifier of a new row is not in use, so the cascade invariant holds in the empty
  store and is kept by enrollment creation and by soft-deletion, whatever their outcome.
\<close>

lemma fold_max_ge: "(a::int) \<le> fold max xs a"
proof (induction xs arbitrary: a)
  case Nil
  show ?case by simp
next
  case (Cons y ys)
  have "a \<le> max y a" by simp
  also have "\<dots> \<le> fold max ys (max y a)" by (rule Cons.IH)
  finally show ?case by simp
qed

lemma fold_max_upper: "x \<in> set xs \<Longrightarrow> (x::int) \<le> fold max xs a"
proof (induction xs arbitrary: a)
  case Nil
  then show ?case by simp
next
  case (Cons y ys)
  show ?case
  proof (cases "x = y")
    case True
    have "y \<le> max y a" by simp
    also have "\<dots> \<le> fold max ys (max y a)" by (rule fold_max_ge)
    finally show ?thesis using True by simp
  next
    case False
    with Cons.prems have "x \<in> set ys" by simp
    from Cons.IH[OF this] show ?thesis by simp
  qed
qed

lemma next_id_fresh: "next_id ids \<notin> set ids"
proof
  assume "next_id ids \<in> set ids"
  from fold_max_upper[OF this, of 0] show False by (simp add: next_id_def)
qed

lemma set_update_first:
  "x \<in> set (update_first P f xs) \<Longrightarrow> x \<in> set xs \<or> (\<exists>y\<in>set xs. P y \<and> x = f y)"
  by (induction xs) (auto split: if_splits)

lemma cascade_inv_empty:
  "cascade_inv \<lparr>users = us, customers = [], partnership_codes = pcs, transactions = []\<rparr>"
  by (simp add: cascade_inv_def)

lemma create_customer_store:
  "fst (create_customer d token customer now) = d
   \<or> (\<exists>c. c_id c \<notin> c_id ` set (customers d) \<and> \<not> is_deleted c
        \<and> customers (fst (create_customer d token customer now)) = customers d @ [c]
        \<and> (transactions (fst (create_customer d token customer now)) = transactions d
           \<or> (\<exists>t. customer_id t = c_id c
                \<and> transactions (fst (create_customer d token customer now))
                    = transactions d @ [t])))"
proof (cases "require_permission can_manage_customers token")
  case (Inl e)
  then show ?thesis by (simp add: create_customer_def)
next
  case (Inr u)
  show ?thesis
  proof (cases "partnership_code_rejected d (req_partnership_code customer)")
    case True
    with Inr show ?thesis by (simp add: create_customer_def)
  next
    case False
    let ?c = "new_customer d customer now"
    have id: "c_id ?c = next_id (map c_id (customers d))"
      by (simp add: new_customer_def Let_def)
    have "c_id ?c \<notin> set (map c_id (customers d))" unfolding id by (rule next_id_fresh)
    then have fresh: "c_id ?c \<notin> c_id ` set (customers d)" by simp
    have nd: "\<not> is_deleted ?c" by (simp add: new_customer_def Let_def)
    have cs: "customers (fst (create_customer d token customer now)) = customers d @ [?c]"
      using Inr False by (simp add: create_customer_def Let_def)
    have ts: "transactions (fst (create_customer d token customer now)) = transactions d
       \<or> (\<exists>t. customer_id t = c_id ?c
                \<and> transactions (fst (create_customer d token customer now))
                    = transactions d @ [t])"
      using Inr False by (simp add: create_customer_def Let_def new_transaction_def)
    from fresh nd cs ts show ?thesis by blast
  qed
qed

lemma cascade_inv_create_customer:
  assumes "cascade_inv d"
  shows "cascade_inv (fst (create_customer d token customer now))"
proof -
  let ?d' = "fst (create_customer d token customer now)"
  from create_customer_store[of d token customer now]
  consider (same) "?d' = d"
    | (added) c where "c_id c \<notin> c_id ` set (customers d)" "\<not> is_deleted c"
        "customers ?d' = customers d @ [c]"
        "transactions ?d' = transactions d
           \<or> (\<exists>t. customer_id t = c_id c \<and> transactions ?d' = transactions d @ [t])"
    by blast
  then show ?thesis
  proof cases
    case same
    with assms show ?thesis by simp
  next
    case added
    from added(4) show ?thesis
    proof
      assume "transactions ?d' = transactions d"
      with assms added(2,3) show ?thesis by (auto simp: cascade_inv_def)
    next
      assume "\<exists>t. customer_id t = c_id c \<and> transactions ?d' = transactions d @ [t]"
      then obtain t where t: "customer_id t = c_id c" "transactions ?d' = transactions d @ [t]"
        by blast
      have fresh: "\<forall>ca\<in>set (customers d). c_id ca \<noteq> c_id c"
        using added(1) by (metis imageI)
      show ?thesis
        unfolding cascade_inv_def t(2) added(3)
        using assms added(2) t(1) fresh by (auto simp: cascade_inv_def)
    qed
  qed
qed

lemma cascade_inv_delete_customer:
  assumes "cascade_inv d"
  shows "cascade_inv (fst (delete_customer d token cid now))"
proof (cases "require_permission can_manage_customers token")
  case (Inl e)
  then show ?thesis using assms by (simp add: delete_customer_def)
next
  case (Inr u)
  show ?thesis
  proof (cases "first (\<lambda>c. c_id c = cid) (customers d)")
    case None
    with Inr assms show ?thesis by (simp add: delete_customer_def)
  next
    case (Some c0)
    have "\<not> is_deleted c'"
      if t: "t \<in> set (transactions d)" "\<not> t_is_deleted (cascade cid t)"
        and c': "c' \<in> set (update_first (\<lambda>c. c_id c = cid) (mark_deleted now) (customers d))"
          "c_id c' = customer_id (cascade cid t)"
      for t c'
    proof -
      from t(2) have nd: "\<not> t_is_deleted t" and ne: "customer_id t \<noteq> cid"
        by (auto simp: cascade_def split: if_splits)
      then have same: "cascade cid t = t" by (simp add: cascade_def)
      from set_update_first[OF c'(1)] have "c' \<in> set (customers d)"
        using c'(2) ne same by (auto simp: mark_deleted_def)
      with assms t(1) nd c'(2) same show ?thesis by (auto simp: cascade_inv_def)
    qed
    then show ?thesis
      using Inr Some by (auto simp: delete_customer_def cascade_inv_def)
  qed
qed

lemma first_at_index:
  "i < length xs \<Longrightarrow> P (xs ! i) \<Longrightarrow> \<forall>j<i. \<not> P (xs ! j) \<Longrightarrow>
     first P xs = Some (xs ! i) \<and> update_first P f xs = xs[i := f (xs ! i)]"
proof (induction xs arbitrary: i)
  case Nil
  then show ?case by simp
next
  case (Cons a xs)
  show ?case
  proof (cases i)
    case 0
    with Cons.prems show ?thesis by simp
  next
    case (Suc k)
    have na: "\<not> P a" using Cons.prems(3) Suc by (auto dest: spec[of _ 0])
    have k: "k < length xs" "P (xs ! k)" using Cons.prems(1,2) Suc by simp_all
    have "\<forall>j<k. \<not> P (xs ! j)"
    proof (intro allI impI)
      fix j assume "j < k"
      then have "Suc j < i" using Suc by simp
      with Cons.prems(3) have "\<not> P ((a # xs) ! Suc j)" by blast
      then show "\<not> P (xs ! j)" by simp
    qed
    from Cons.IH[OF k this] na Suc show ?thesis by simp
  qed
qed

text \<open>
  C10. In a store that satisfies the cascade invariant, let row \<open>i\<close> of the customer table
  be the first row with the identifier, and let it be soft-deleted already. Then for a
  caller who may manage customers the deletion does not fail: it answers with the success
  message, and the store afterwards differs from the store before only in the deletion
  timestamp of row \<open>i\<close>, which is the new time. No transaction and no other row changes.
\<close>

theorem delete_customer_again:
  assumes "token = Some cu" "can_manage_customers cu"
    and "i < length (customers d)" "c_id (customers d ! i) = cid"
    and "\<forall>j<i. c_id (customers d ! j) \<noteq> cid"
    and "is_deleted (customers d ! i)"
    and "cascade_inv d"
  shows "delete_customer d token cid now
       = (d\<lparr>customers := (customers d)[i := (customers d ! i)\<lparr>deleted_at := Some now\<rparr>]\<rparr>,
          Inr ''Customer marked as deleted (payment not received)'')"
proof -
  let ?c = "customers d ! i"
  from first_at_index[of i "customers d" "\<lambda>c. c_id c = cid" "mark_deleted now"] assms(3,4,5)
  have f: "first (\<lambda>c. c_id c = cid) (customers d) = Some ?c"
    and u: "update_first (\<lambda>c. c_id c = cid) (mark_deleted now) (customers d)
          = (customers d)[i := mark_deleted now ?c]"
    by simp_all
  have c: "?c \<in> set (customers d)" using assms(3) by simp
  have m: "mark_deleted now ?c = ?c\<lparr>deleted_at := Some now\<rparr>"
    using assms(6) by (simp add: mark_deleted_def)
  have "cascade cid t = t" if "t \<in> set (transactions d)" for t
    using assms(4,6,7) c that by (auto simp: cascade_def cascade_inv_def)
  then have txs: "map (cascade cid) (transactions d) = transactions d"
    by (simp add: map_idI)
  show ?thesis
    using assms(1,2) f u txs m
    by (simp add: delete_customer_def require_permission_def)
qed

text \<open>
  The second customer of the store, deleted on 3 November, is deleted again on 4 November:
  the request succeeds, the timestamp of the second row moves, and the first customer and
  both transactions stay.
\<close>

theorem delete_customer_again_witness:
  "cascade_inv cancelled_db
   \<and> map c_id (customers cancelled_db) = [1, 2]
   \<and> map is_deleted (customers cancelled_db) = [False, True]
   \<and> map deleted_at (customers cancelled_db) = [None, Some (at_time 2026 11 3 9)]
   \<and> delete_customer cancelled_db (Some admin) 2 (at_time 2026 11 4 9)
     = (cancelled_db\<lparr>customers :=
          [customer_row 1 [100] None False,
           (customer_row 2 [70] None True)\<lparr>deleted_at := Some (at_time 2026 11 4 9)\<rparr>]\<rparr>,
        Inr ''Customer marked as deleted (payment not received)'')"
proof -
  have a: "can_manage_customers admin" by (simp add: admin_def)
  have i: "1 < length (customers cancelled_db)" "c_id (customers cancelled_db ! 1) = 2"
    "\<forall>j<1. c_id (customers cancelled_db ! j) \<noteq> 2" "is_deleted (customers cancelled_db ! 1)"
    by (simp_all add: cancelled_db_def customer_row_def)
  have inv: "cascade_inv cancelled_db"
    by (simp add: cascade_inv_def cancelled_db_def tx_row_def customer_row_def)
  have rows: "map c_id (customers cancelled_db) = [1, 2]"
    "map is_deleted (customers cancelled_db) = [False, True]"
    "map deleted_at (customers cancelled_db) = [None, Some (at_time 2026 11 3 9)]"
    by (simp_all add: cancelled_db_def customer_row_def)
  have "(customers cancelled_db)[1 := (customers cancelled_db ! 1)
            \<lparr>deleted_at := Some (at_time 2026 11 4 9)\<rparr>]
      = [customer_row 1 [100] None False,
         (customer_row 2 [70] None True)\<lparr>deleted_at := Some (at_time 2026 11 4 9)\<rparr>]"
    by (simp add: cancelled_db_def)
  with delete_customer_again[OF refl a i inv, of "at_time 2026 11 4 9"] inv rows
  show ?thesis by simp
qed

end
